theory Spec2Isabelle
  imports Complex_Main
begin

section \<open>The option-pricing notebook as a function of its parameters\<close>

text \<open>
  The notebook \<^verbatim>\<open>ddp_ex_MF_7_6_4_py.ipynb\<close> sets six parameters in its first code cell and
  then builds, cell by cell, the arrays of a discrete dynamic program in state-action-pair
  form. Each global of the notebook is a function of the parameter record here, under the
  name the notebook gives it. NumPy's floats are read as real numbers: rounding is not
  modelled, and where NumPy would produce \<^verbatim>\<open>nan\<close> or \<^verbatim>\<open>inf\<close> (the square root of a negative
  period length, a division by a zero volatility) the real-valued functions below return
  some real instead; every statement about the values of \<open>u\<close>, \<open>q\<close> or \<open>ps\<close> therefore
  assumes the inputs that keep NumPy finite.
\<close>

record params =
  expiration_years :: real   \<comment> \<open>\<^verbatim>\<open>T\<close>\<close>
  volatility :: real         \<comment> \<open>\<^verbatim>\<open>vol\<close>\<close>
  annual_rate :: real        \<comment> \<open>\<^verbatim>\<open>r\<close>\<close>
  strike_price :: real       \<comment> \<open>\<^verbatim>\<open>strike\<close>\<close>
  initial_price :: real      \<comment> \<open>\<^verbatim>\<open>p0\<close>\<close>
  num_periods :: int         \<comment> \<open>\<^verbatim>\<open>N\<close>, a Python int\<close>

datatype py_error = ZeroDivisionError | ValueError

subsection \<open>Cell 5: period length, discount factor, up-jump factor and probability\<close>

definition tau :: "params \<Rightarrow> real" where
  "tau p = expiration_years p / of_int (num_periods p)"

definition beta :: "params \<Rightarrow> real" where
  "beta p = exp (- annual_rate p * tau p)"

definition u :: "params \<Rightarrow> real" where
  "u p = exp (volatility p * sqrt (tau p))"

definition q :: "params \<Rightarrow> real" where
  "q p = 1 / 2 + sqrt (tau p) * (annual_rate p - (volatility p)\<^sup>2 / 2) / (2 * volatility p)"

subsection \<open>Cell 7: price lattice and sizes\<close>

text \<open>\<^verbatim>\<open>ps = u**np.arange(-N, N+1) * p0\<close>; \<^verbatim>\<open>np.arange(-N, N+1)\<close> is empty when \<open>N < 0\<close>.\<close>

definition ps :: "params \<Rightarrow> real list" where
  "ps p = map (\<lambda>k. u p powi k * initial_price p) [- num_periods p .. num_periods p]"

definition n :: "params \<Rightarrow> nat" where
  "n p = length (ps p) + 1"

definition m :: nat where
  "m = 2"

definition L :: "params \<Rightarrow> nat" where
  "L p = n p * m - 1"

subsection \<open>Cell 8: state and action indices\<close>

text \<open>
  Modelled from the spec: \<^verbatim>\<open>sa_indices\<close> is a function of the imported library and its code
  is not part of the notebook. The spec fixes what it returns: all state-action pairs of
  \<open>num_states\<close> states with \<open>num_actions\<close> actions each, state-major and action-minor.
\<close>

definition sa_indices :: "nat \<Rightarrow> nat \<Rightarrow> nat list \<times> nat list" where
  "sa_indices num_states num_actions =
     (concat (map (replicate num_actions) [0..<num_states]),
      concat (replicate num_states [0..<num_actions]))"

definition s_indices :: "params \<Rightarrow> nat list" where
  "s_indices p = butlast (fst (sa_indices (n p) m))"

definition a_indices :: "params \<Rightarrow> nat list" where
  "a_indices p = butlast (snd (sa_indices (n p) m))"

subsection \<open>Cell 9: reward vector\<close>

text \<open>
  \<^verbatim>\<open>np.empty((n, m))\<close> leaves its cells uninitialised; \<open>junk i j\<close> stands for whatever cell
  \<open>(i, j)\<close> holds. The three assignments and the final \<^verbatim>\<open>ravel()[:-1]\<close> follow the cell.
\<close>

definition R :: "(nat \<Rightarrow> nat \<Rightarrow> real) \<Rightarrow> params \<Rightarrow> real list" where
  "R junk p =
     (let R0 = map (\<lambda>i. map (junk i) [0..<m]) [0..<n p];
          R1 = map (\<lambda>row. row[0 := 0]) R0;
          R2 = map2 (\<lambda>row x. row[1 := x]) (butlast R1)
                 (map (\<lambda>x. strike_price p - x) (ps p)) @ [last R1]
      in butlast (concat R2))"

subsection \<open>Cell 10: transition probability array\<close>

text \<open>
  The \<open>L \<times> n\<close> matrix starts at zero and is assigned cell by cell; an assignment replaces
  what the cell held. The indices are natural numbers: \<^verbatim>\<open>max(s-1, 0)\<close> is the truncating
  \<open>s - 1\<close>, and \<^verbatim>\<open>len(ps)-1\<close> is only evaluated inside the loop, which runs only when
  \<open>ps\<close> is not empty.
\<close>

definition Q_set :: "real list list \<Rightarrow> nat \<Rightarrow> nat \<Rightarrow> real \<Rightarrow> real list list" where
  "Q_set A i j x = A[i := (A ! i)[j := x]]"

definition Q_body :: "params \<Rightarrow> nat \<Rightarrow> real list list \<Rightarrow> real list list" where
  "Q_body p i A =
     (if a_indices p ! i = 0
      then Q_set (Q_set A i (min (s_indices p ! i + 1) (length (ps p) - 1)) (q p))
                 i (s_indices p ! i - 1) (1 - q p)
      else Q_set A i (n p - 1) 1)"

definition Q :: "params \<Rightarrow> real list list" where
  "Q p = Q_set (fold (Q_body p) [0..<L p - 1] (replicate (L p) (replicate (n p) 0)))
               (L p - 1) (n p - 1) 1"

subsection \<open>Cell 11: the dynamic program handed to the solver\<close>

record DiscreteDP =
  ddp_R :: "real list"
  ddp_Q :: "real list list"
  ddp_beta :: real
  ddp_s_indices :: "nat list"
  ddp_a_indices :: "nat list"
  num_states :: nat

definition ddp :: "(nat \<Rightarrow> nat \<Rightarrow> real) \<Rightarrow> params \<Rightarrow> DiscreteDP" where
  "ddp junk p = \<lparr> ddp_R = R junk p, ddp_Q = Q p, ddp_beta = beta p,
                  ddp_s_indices = s_indices p, ddp_a_indices = a_indices p,
                  num_states = n p \<rparr>"

text \<open>
  Modelled from the spec: the constructor \<^verbatim>\<open>DiscreteDP\<close> belongs to the imported library
  and its code is not part of the notebook. The spec's data model has one discount factor
  \<open>\<beta>\<close> in \<open>(0, 1]\<close>; the constructor keeps the arrays as they are handed over and raises
  \<^verbatim>\<open>ValueError\<close> for a discount factor outside \<open>[0, 1]\<close>. Its other checks, that the
  arrays have one entry per pair and that every state has an action, never fail on the
  arrays of cells 8 to 10.
\<close>

definition DiscreteDP_init :: "DiscreteDP \<Rightarrow> py_error + DiscreteDP" where
  "DiscreteDP_init d = (if 0 \<le> ddp_beta d \<and> ddp_beta d \<le> 1 then Inr d else Inl ValueError)"

text \<open>
  Two statements of the cells can raise. \<^verbatim>\<open>tau = T/N\<close> raises Python's
  \<^verbatim>\<open>ZeroDivisionError\<close> when \<open>N = 0\<close>, before anything is built, and the constructor of
  cell 11 raises \<^verbatim>\<open>ValueError\<close> for a discount factor above 1. No cell checks the sign of
  an input.
\<close>

definition build_option_mdp :: "(nat \<Rightarrow> nat \<Rightarrow> real) \<Rightarrow> params \<Rightarrow> py_error + DiscreteDP" where
  "build_option_mdp junk p =
     (if num_periods p = 0 then Inl ZeroDivisionError else DiscreteDP_init (ddp junk p))"

subsection \<open>Reading the state-action-pair form\<close>

text \<open>
  The arrays describe a dynamic program through the list of its feasible state-action
  pairs: pair \<open>i\<close> is action \<open>a_indices[i]\<close> in state \<open>s_indices[i]\<close>, with reward \<open>R[i]\<close>
  and transition row \<open>Q[i]\<close>. The functions below read them back by state and action.
\<close>

definition pairs_of :: "DiscreteDP \<Rightarrow> nat \<Rightarrow> nat list" where
  "pairs_of d s = filter (\<lambda>i. ddp_s_indices d ! i = s) [0..<length (ddp_s_indices d)]"

definition feasible :: "DiscreteDP \<Rightarrow> nat \<Rightarrow> nat list" where
  "feasible d s = map (\<lambda>i. ddp_a_indices d ! i) (pairs_of d s)"

definition pair_index :: "DiscreteDP \<Rightarrow> nat \<Rightarrow> nat \<Rightarrow> nat option" where
  "pair_index d s a =
     find (\<lambda>i. ddp_s_indices d ! i = s \<and> ddp_a_indices d ! i = a)
          [0..<length (ddp_s_indices d)]"

definition reward :: "DiscreteDP \<Rightarrow> nat \<Rightarrow> nat \<Rightarrow> real option" where
  "reward d s a = map_option (\<lambda>i. ddp_R d ! i) (pair_index d s a)"

definition transition :: "DiscreteDP \<Rightarrow> nat \<Rightarrow> nat \<Rightarrow> real list option" where
  "transition d s a = map_option (\<lambda>i. ddp_Q d ! i) (pair_index d s a)"

text \<open>The row that one pass of the loop of cell 10 leaves in place of \<open>row\<close> at pair \<open>i\<close>.\<close>

definition Q_row :: "params \<Rightarrow> nat \<Rightarrow> real list \<Rightarrow> real list" where
  "Q_row p i row =
     (if a_indices p ! i = 0
      then row[min (s_indices p ! i + 1) (length (ps p) - 1) := q p,
               s_indices p ! i - 1 := 1 - q p]
      else row[n p - 1 := 1])"

section \<open>The backward-induction solver\<close>

text \<open>
  Modelled from the spec: \<^verbatim>\<open>backward_induction\<close> is imported from the library and its code
  is not part of the notebook, which only calls it as \<^verbatim>\<open>backward_induction(ddp, N)\<close>. The
  definitions follow section 4.2 of the spec: the error conditions, the backup
  \<open>Q(s,a) = reward(s,a) + \<beta> \<cdot> \<Sum>\<^sub>s\<^sub>' P(s,a,s') \<cdot> V\<^bsub>t+1\<^esub>(s')\<close> over the feasible actions of each
  state, the maximum as the new value and the first action that attains it as the policy,
  for \<open>t\<close> from \<open>N - 1\<close> down to \<open>0\<close>.
\<close>

datatype solver_error = InvalidHorizon | MalformedMDP

definition row_ok :: "real \<Rightarrow> real list \<Rightarrow> bool" where
  "row_ok tol row \<longleftrightarrow> \<bar>sum_list row - 1\<bar> \<le> tol \<and> (\<forall>x \<in> set row. 0 \<le> x)"

definition tolerance :: real where
  "tolerance = 1 / 10 ^ 8"

definition Q_value :: "DiscreteDP \<Rightarrow> real list \<Rightarrow> nat \<Rightarrow> real" where
  "Q_value d v i =
     ddp_R d ! i + ddp_beta d * (\<Sum>s' \<leftarrow> [0..<num_states d]. ddp_Q d ! i ! s' * v ! s')"

text \<open>
  The scan over the pairs of one state keeps the pair seen so far with the largest value
  and replaces it only by a strictly larger one, so that among equal values the first pair,
  the one of lowest action index, stays. A state without pairs has no maximum.
\<close>

fun argmax_first :: "(nat \<Rightarrow> real) \<Rightarrow> nat \<Rightarrow> nat list \<Rightarrow> nat" where
  "argmax_first f best [] = best"
| "argmax_first f best (i # is) = argmax_first f (if f best < f i then i else best) is"

fun s_wise_max :: "(nat \<Rightarrow> real) \<Rightarrow> nat list \<Rightarrow> nat option" where
  "s_wise_max f [] = None"
| "s_wise_max f (i # is) = Some (argmax_first f i is)"

definition backup :: "DiscreteDP \<Rightarrow> real list \<Rightarrow> nat list option" where
  "backup d v =
     those (map (\<lambda>s. s_wise_max (Q_value d v) (pairs_of d s)) [0..<num_states d])"

text \<open>
  \<open>bi_loop d k v\<close> runs \<open>k\<close> backups from the value vector \<open>v\<close> of period \<open>k\<close>: it returns the
  value vectors of periods \<open>0..k\<close> and the policies of periods \<open>0..k-1\<close>.
\<close>

fun bi_loop :: "DiscreteDP \<Rightarrow> nat \<Rightarrow> real list \<Rightarrow> (real list list \<times> nat list list) option" where
  "bi_loop d 0 v = Some ([v], [])"
| "bi_loop d (Suc k) v =
     (case backup d v of
        None \<Rightarrow> None
      | Some best \<Rightarrow>
          (case bi_loop d k (map (Q_value d v) best) of
             None \<Rightarrow> None
           | Some (vs, sigmas) \<Rightarrow>
               Some (vs @ [v], sigmas @ [map (\<lambda>i. ddp_a_indices d ! i) best])))"

definition backward_induction ::
  "DiscreteDP \<Rightarrow> int \<Rightarrow> real list option \<Rightarrow> solver_error + (real list list \<times> nat list list)" where
  "backward_induction d horizon terminal_value =
     (if horizon < 1 then Inl InvalidHorizon
      else if \<not> list_all (row_ok tolerance) (ddp_Q d) then Inl MalformedMDP
      else case bi_loop d (nat horizon)
                  (case terminal_value of None \<Rightarrow> replicate (num_states d) 0 | Some v \<Rightarrow> v) of
             None \<Rightarrow> Inl MalformedMDP
           | Some r \<Rightarrow> Inr r)"

text \<open>
  \<open>Q_sa d v s a\<close> is the quantity \<open>Q(s,a)\<close> of the claims, written by state and action as
  the spec writes it; it is undefined (\<open>None\<close>) when \<open>a\<close> is not feasible in \<open>s\<close>.
\<close>

definition Q_sa :: "DiscreteDP \<Rightarrow> real list \<Rightarrow> nat \<Rightarrow> nat \<Rightarrow> real option" where
  "Q_sa d v s a =
     (case (reward d s a, transition d s a) of
        (Some x, Some row) \<Rightarrow> Some (x + ddp_beta d * (\<Sum>s' < num_states d. row ! s' * v ! s'))
      | _ \<Rightarrow> None)"

section \<open>Concrete inputs\<close>

text \<open>
  One possible content of the uninitialised array of cell 9, and a small parameter set
  (one period, hence three price levels and the absorbing state) on which the statements
  below are evaluated: its period length is \<open>1\<close> and its up-jump probability is \<open>1/2\<close>.
\<close>

definition junk0 :: "nat \<Rightarrow> nat \<Rightarrow> real" where
  "junk0 i j = 0"

definition example_params :: params where
  "example_params = \<lparr> expiration_years = 1, volatility = 1, annual_rate = 1 / 2,
                        strike_price = 2, initial_price = 1, num_periods = 1 \<rparr>"

text \<open>
  Four more parameter sets: positive inputs whose up-jump probability is negative, a
  negative strike price, a period count of zero, and a negative interest rate.
\<close>

definition neg_q_params :: params where
  "neg_q_params = \<lparr> expiration_years = 1, volatility = 4, annual_rate = 1,
                      strike_price = 1, initial_price = 1, num_periods = 1 \<rparr>"

definition neg_strike_params :: params where
  "neg_strike_params = \<lparr> expiration_years = 1, volatility = 1, annual_rate = 1 / 2,
                      strike_price = - 1, initial_price = 1, num_periods = 1 \<rparr>"

definition zero_periods_params :: params where
  "zero_periods_params = \<lparr> expiration_years = 1, volatility = 1, annual_rate = 1 / 2,
                      strike_price = 2, initial_price = 1, num_periods = 0 \<rparr>"

definition neg_rate_params :: params where
  "neg_rate_params = \<lparr> expiration_years = 1, volatility = 1, annual_rate = - 1 / 2,
                      strike_price = 2, initial_price = 1, num_periods = 1 \<rparr>"

section \<open>Shapes and contents of the arrays\<close>

lemma length_ps: "length (ps p) = nat (2 * num_periods p + 1)"
  by (simp add: ps_def)

lemma L_eq: "L p = 2 * length (ps p) + 1" by (simp add: L_def n_def m_def)

lemma pairs_length: "length (concat (map (\<lambda>s. [f s, g s]) xs)) = 2 * length xs"
  by (induction xs) auto

lemma pairs_nth: "i < 2 * length xs \<Longrightarrow>
  concat (map (\<lambda>s. [f s, g s]) xs) ! i = (if even i then f (xs ! (i div 2)) else g (xs ! (i div 2)))"
proof (induction xs arbitrary: i)
  case Nil thus ?case by simp
next
  case (Cons x xs)
  show ?case
  proof (cases "i < 2")
    case True
    hence "i = 0 \<or> i = 1" by auto
    thus ?thesis by auto
  next
    case False
    then obtain j where j: "i = Suc (Suc j)" by (cases i; cases "i - 1") auto
    with Cons.prems have "j < 2 * length xs" by simp
    from Cons.IH[OF this] show ?thesis by (simp add: j)
  qed
qed

lemma sa_fst: "fst (sa_indices k m) = concat (map (\<lambda>s. [s, s]) [0..<k])"
proof -
  have "replicate m = (\<lambda>s::nat. [s, s])" by (rule ext) (simp add: m_def numeral_2_eq_2)
  thus ?thesis by (simp add: sa_indices_def)
qed

lemma sa_snd: "snd (sa_indices k m) = concat (map (\<lambda>s. [0, Suc 0]) [0..<k])"
proof -
  have a: "[0..<m] = [0, Suc 0]" by (simp add: m_def numeral_2_eq_2)
  have "replicate k [0, Suc 0] = map (\<lambda>s. [0, Suc 0]) [0..<k]"
    by (simp add: map_replicate_const)
  thus ?thesis by (simp add: sa_indices_def a)
qed

lemma length_s_indices: "length (s_indices p) = L p"
  by (simp add: s_indices_def sa_fst pairs_length L_eq n_def)

lemma length_a_indices: "length (a_indices p) = L p"
  by (simp add: a_indices_def sa_snd pairs_length L_eq n_def)

lemma s_indices_nth: assumes "i < L p" shows "s_indices p ! i = i div 2"
proof -
  from assms have a: "i < 2 * length [0..<n p]" and b: "i div 2 < n p" by (auto simp: L_eq n_def)
  from assms have "s_indices p ! i = fst (sa_indices (n p) m) ! i"
    unfolding s_indices_def by (intro nth_butlast) (simp add: sa_fst pairs_length L_eq n_def)
  also have "\<dots> = i div 2" unfolding sa_fst using pairs_nth[OF a, of "\<lambda>s. s" "\<lambda>s. s"] b by simp
  finally show ?thesis .
qed

lemma a_indices_nth: assumes "i < L p" shows "a_indices p ! i = i mod 2"
proof -
  from assms have a: "i < 2 * length [0..<n p]" by (auto simp: L_eq n_def)
  from assms have "a_indices p ! i = snd (sa_indices (n p) m) ! i"
    unfolding a_indices_def by (intro nth_butlast) (simp add: sa_snd pairs_length L_eq n_def)
  also have "\<dots> = i mod 2" unfolding sa_snd using pairs_nth[OF a, of "\<lambda>s. 0" "\<lambda>s. Suc 0"]
    by (simp add: odd_iff_mod_2_eq_one)
  finally show ?thesis .
qed

lemma R_eq: "R junk p = butlast (concat (map (\<lambda>x. [0, x]) (map (\<lambda>x. strike_price p - x) (ps p) @ [junk (length (ps p)) (Suc 0)])))"
proof -
  let ?k = "length (ps p)"
  let ?ys = "map (\<lambda>x. strike_price p - x) (ps p)"
  have m2: "[0..<m] = [0, Suc 0]" by (simp add: m_def numeral_2_eq_2)
  have 1: "map (\<lambda>row. row[0 := 0]) (map (\<lambda>i. map (junk i) [0..<m]) [0..<n p])
      = map (\<lambda>i. [0, junk i (Suc 0)]) [0..<?k] @ [[0, junk ?k (Suc 0)]]"
    by (simp add: m2 n_def)
  have 2: "map2 (\<lambda>row x. row[1 := x]) (map (\<lambda>i. [0, junk i (Suc 0)]) [0..<?k]) ?ys
      = map (\<lambda>x. [0, x]) ?ys"
    by (rule nth_equalityI) auto
  show ?thesis
    unfolding R_def Let_def 1 by (simp only: butlast_snoc last_snoc 2 map_append list.map)
qed

lemma length_R: "length (R junk p) = L p"
  unfolding R_eq by (simp add: pairs_length[of "\<lambda>x. 0" "\<lambda>x. x"] L_eq del: map_append)

lemma R_nth: assumes "i < L p"
  shows "R junk p ! i = (if even i then 0 else strike_price p - ps p ! (i div 2))"
proof -
  let ?ys = "map (\<lambda>x. strike_price p - x) (ps p) @ [junk (length (ps p)) (Suc 0)]"
  from assms have a: "i < 2 * length ?ys" by (simp add: L_eq)
  have "R junk p ! i = concat (map (\<lambda>x. [0, x]) ?ys) ! i"
    unfolding R_eq using assms
    by (intro nth_butlast) (simp add: pairs_length[of "\<lambda>x. 0" "\<lambda>x. x"] L_eq del: map_append)
  also have "\<dots> = (if even i then 0 else ?ys ! (i div 2))"
    using pairs_nth[OF a, of "\<lambda>x. 0" "\<lambda>x. x"] by simp
  also have "\<dots> = (if even i then 0 else strike_price p - ps p ! (i div 2))"
  proof (cases "even i")
    case False
    with assms have "i div 2 < length (ps p)" by (auto simp: L_eq elim!: oddE)
    thus ?thesis by (simp add: nth_append)
  qed simp
  finally show ?thesis .
qed

subsection \<open>The transition matrix row by row\<close>

lemma length_Q_set: "length (Q_set A i j x) = length A"
  by (simp add: Q_set_def)

lemma Q_set_nth: "k < length A \<Longrightarrow> Q_set A i j x ! k = (if k = i then (A ! i)[j := x] else A ! k)"
  by (simp add: Q_set_def nth_list_update)

lemma length_Q_body: "length (Q_body p i A) = length A"
  by (simp add: Q_body_def length_Q_set)

lemma Q_body_nth: "k < length A \<Longrightarrow> Q_body p i A ! k = (if k = i then Q_row p i (A ! i) else A ! k)"
  by (simp add: Q_body_def Q_row_def Q_set_nth length_Q_set)

lemma length_Q_fold: "length (fold (Q_body p) [0..<k] A) = length A"
  by (induction k) (simp_all add: length_Q_body)

lemma Q_fold_nth: "i < length A \<Longrightarrow>
  fold (Q_body p) [0..<k] A ! i = (if i < k then Q_row p i (A ! i) else A ! i)"
proof (induction k)
  case 0 thus ?case by simp
next
  case (Suc k)
  show ?case
  proof (cases "i = k")
    case True
    with Suc have "fold (Q_body p) [0..<k] A ! k = A ! k" by simp
    with True Suc.prems show ?thesis by (simp add: Q_body_nth length_Q_fold)
  next
    case False
    with Suc show ?thesis by (simp add: Q_body_nth length_Q_fold)
  qed
qed

lemma length_Q: "length (Q p) = L p"
  by (simp add: Q_def length_Q_set length_Q_fold)

text \<open>The rows of the finished matrix.\<close>

lemma Q_nth_hold:
  assumes "s < length (ps p)"
  shows "Q p ! (2 * s) = (replicate (n p) 0)[min (s + 1) (length (ps p) - 1) := q p, s - 1 := 1 - q p]"
proof -
  from assms have i: "2 * s < L p - 1" "2 * s < L p" by (simp_all add: L_eq)
  hence "Q p ! (2 * s) = Q_row p (2 * s) (replicate (n p) 0)"
    by (simp add: Q_def Q_set_nth length_Q_fold Q_fold_nth)
  thus ?thesis using i(2) by (simp add: Q_row_def a_indices_nth s_indices_nth)
qed

lemma Q_nth_exercise:
  assumes "s < length (ps p)"
  shows "Q p ! Suc (2 * s) = (replicate (n p) 0)[n p - 1 := 1]"
proof -
  from assms have i: "Suc (2 * s) < L p - 1" "Suc (2 * s) < L p" by (simp_all add: L_eq)
  hence "Q p ! Suc (2 * s) = Q_row p (Suc (2 * s)) (replicate (n p) 0)"
    by (simp add: Q_def Q_set_nth length_Q_fold Q_fold_nth)
  thus ?thesis using i(2) by (simp add: Q_row_def a_indices_nth s_indices_nth)
qed

lemma Q_nth_last: "Q p ! (2 * length (ps p)) = (replicate (n p) 0)[n p - 1 := 1]"
proof -
  have "replicate (L p) (replicate (n p) (0::real)) ! (2 * length (ps p)) = replicate (n p) 0"
    by (intro nth_replicate) (simp add: L_eq)
  thus ?thesis
    by (simp add: Q_def Q_set_nth length_Q_fold Q_fold_nth L_eq del: replicate_Suc)
qed

lemma length_Q_nth: assumes "i < L p" shows "length (Q p ! i) = n p"
proof -
  have "i = 2 * (i div 2) \<and> i div 2 < length (ps p) \<or> i = 2 * (i div 2) + 1 \<and> i div 2 < length (ps p)
    \<or> i = 2 * length (ps p)"
    using assms unfolding L_eq by presburger
  then consider s where "i = 2 * s" "s < length (ps p)" | s where "i = 2 * s + 1" "s < length (ps p)"
    | "i = 2 * length (ps p)"
    by blast
  thus ?thesis by cases (simp_all add: Q_nth_hold Q_nth_exercise Q_nth_last)
qed

subsection \<open>Pairs, feasible actions and lookups of a built program\<close>

lemma ddp_sel:
  "ddp_R (ddp junk p) = R junk p" "ddp_Q (ddp junk p) = Q p" "ddp_beta (ddp junk p) = beta p"
  "ddp_s_indices (ddp junk p) = s_indices p" "ddp_a_indices (ddp junk p) = a_indices p"
  "num_states (ddp junk p) = n p"
  by (simp_all add: ddp_def)

lemma filter_div2:
  "filter (\<lambda>i. i div 2 = s) [0..<k] =
     (if Suc (2 * s) < k then [2 * s, Suc (2 * s)] else if 2 * s < k then [2 * s] else [])"
proof (induction k)
  case 0 show ?case by simp
next
  case (Suc k)
  have "k div 2 = s \<longleftrightarrow> k = 2 * s \<or> k = Suc (2 * s)" by presburger
  with Suc show ?case by auto
qed

lemma pairs_of_ddp:
  "pairs_of (ddp junk p) s =
     (if s < length (ps p) then [2 * s, Suc (2 * s)] else if s = length (ps p) then [2 * s] else [])"
proof -
  have "pairs_of (ddp junk p) s = filter (\<lambda>i. i div 2 = s) [0..<L p]"
    unfolding pairs_of_def by (rule filter_cong) (simp_all add: ddp_sel length_s_indices s_indices_nth)
  thus ?thesis by (simp add: filter_div2 L_eq)
qed

lemma feasible_ddp:
  "feasible (ddp junk p) s =
     (if s < length (ps p) then [0, 1] else if s = length (ps p) then [0] else [])"
proof -
  have "s < length (ps p) \<Longrightarrow> 2 * s < L p \<and> Suc (2 * s) < L p" by (simp add: L_eq)
  moreover have "2 * length (ps p) < L p" by (simp add: L_eq)
  ultimately show ?thesis
    by (simp add: feasible_def pairs_of_ddp ddp_sel a_indices_nth)
qed

lemma find_upt_Some:
  assumes "j < k" "f j" "\<And>i. i < j \<Longrightarrow> \<not> f i"
  shows "find f [0..<k] = Some j"
  unfolding find_Some_iff using assms by (intro exI[of _ j]) auto

lemma pair_index_ddp:
  "pair_index (ddp junk p) s a =
     (if s < length (ps p) \<and> a < 2 \<or> s = length (ps p) \<and> a = 0 then Some (2 * s + a) else None)"
proof (cases "s < length (ps p) \<and> a < 2 \<or> s = length (ps p) \<and> a = 0")
  case True
  hence lt: "2 * s + a < L p" by (auto simp: L_eq)
  have "find (\<lambda>i. s_indices p ! i = s \<and> a_indices p ! i = a) [0..<L p] = Some (2 * s + a)"
  proof (rule find_upt_Some[OF lt])
    from True have "a < 2" by auto
    thus "s_indices p ! (2 * s + a) = s \<and> a_indices p ! (2 * s + a) = a"
      using lt by (simp add: s_indices_nth a_indices_nth)
  next
    fix i assume i: "i < 2 * s + a"
    with lt have "i < L p" by simp
    moreover from i True have "i div 2 \<noteq> s \<or> i mod 2 \<noteq> a" by (cases "i div 2 = s") auto
    ultimately show "\<not> (s_indices p ! i = s \<and> a_indices p ! i = a)"
      by (simp add: s_indices_nth a_indices_nth)
  qed
  with True show ?thesis by (simp add: pair_index_def ddp_sel length_s_indices)
next
  case False
  have "find (\<lambda>i. s_indices p ! i = s \<and> a_indices p ! i = a) [0..<L p] = None"
    unfolding find_None_iff
  proof safe
    fix i assume i: "i \<in> set [0..<L p]" and e: "a = a_indices p ! i" "s = s_indices p ! i"
    hence "i < L p" by simp
    with e have "s = i div 2" "a = i mod 2" by (simp_all add: s_indices_nth a_indices_nth)
    moreover from \<open>i < L p\<close> have "i div 2 < length (ps p) \<or> i = 2 * length (ps p)"
      unfolding L_eq by auto
    ultimately show False using False by auto
  qed
  with False show ?thesis by (simp add: pair_index_def ddp_sel length_s_indices)
qed

section \<open>Rewards, the exercise action and the absorbing state\<close>

lemma build_Inr: "build_option_mdp junk p = Inr d \<Longrightarrow> d = ddp junk p \<and> num_periods p \<noteq> 0"
  by (auto simp: build_option_mdp_def DiscreteDP_init_def split: if_splits)

lemma beta_pos: "0 < beta p"
  by (simp add: beta_def)

lemma beta_le_one_iff: "beta p \<le> 1 \<longleftrightarrow> 0 \<le> annual_rate p * tau p"
  by (simp add: beta_def)

lemma build_ok:
  assumes "num_periods p \<noteq> 0" "beta p \<le> 1"
  shows "build_option_mdp junk p = Inr (ddp junk p)"
  using assms beta_pos[of p] by (simp add: build_option_mdp_def DiscreteDP_init_def ddp_def)

lemma length_ps_cases:
  "num_periods p \<noteq> 0 \<Longrightarrow> length (ps p) = 0 \<or> 3 \<le> length (ps p)"
  unfolding length_ps by (cases "num_periods p < 0") auto

lemma reward_ddp:
  "reward (ddp junk p) s a =
     (if s < length (ps p) \<and> a = 0 \<or> s = length (ps p) \<and> a = 0 then Some 0
      else if s < length (ps p) \<and> a = 1 then Some (strike_price p - ps p ! s) else None)"
proof -
  have "s \<le> length (ps p) \<Longrightarrow> R junk p ! (2 * s) = 0"
    by (simp add: R_nth L_eq)
  moreover have "s < length (ps p) \<Longrightarrow> R junk p ! Suc (2 * s) = strike_price p - ps p ! s"
    by (simp add: R_nth L_eq)
  moreover have "a < 2 \<longleftrightarrow> a = 0 \<or> a = 1" by auto
  ultimately show ?thesis
    by (auto simp: reward_def pair_index_ddp ddp_sel)
qed

lemma transition_ddp:
  "transition (ddp junk p) s a =
     (if s < length (ps p) \<and> a = 0
      then Some ((replicate (n p) 0)[min (s + 1) (length (ps p) - 1) := q p, s - 1 := 1 - q p])
      else if s < length (ps p) \<and> a = 1 \<or> s = length (ps p) \<and> a = 0
      then Some ((replicate (n p) 0)[n p - 1 := 1]) else None)"
proof -
  have "a < 2 \<longleftrightarrow> a = 0 \<or> a = 1" by auto
  thus ?thesis
    by (auto simp: transition_def pair_index_ddp ddp_sel Q_nth_hold Q_nth_exercise Q_nth_last)
qed

text \<open>
  Claim C9. In every state of a built program, price state or absorbing state, the reward
  of action 0 (hold, or do nothing) is exactly 0, whatever the parameters; a non-zero
  reward can only belong to action 1, exercise.
\<close>

theorem C9_hold_reward_zero:
  assumes "build_option_mdp junk p = Inr d" and "s < num_states d"
  shows "reward d s 0 = Some 0 \<and> (\<forall>a x. reward d s a = Some x \<and> x \<noteq> 0 \<longrightarrow> a = 1)"
proof -
  from assms(1) have d: "d = ddp junk p" by (simp add: build_Inr)
  from assms(2) have "s \<le> length (ps p)" by (simp add: d ddp_sel n_def)
  thus ?thesis unfolding d reward_ddp by (auto split: if_splits)
qed

lemma example_build: "build_option_mdp junk0 example_params = Inr (ddp junk0 example_params)"
  by (rule build_ok) (simp_all add: beta_le_one_iff tau_def example_params_def)

lemma example_length_ps: "length (ps example_params) = 3"
  by (simp add: length_ps example_params_def)

lemma example_n: "num_states (ddp junk0 example_params) = 4"
  by (simp add: ddp_sel n_def example_length_ps)

theorem C9_witness:
  "build_option_mdp junk0 example_params = Inr (ddp junk0 example_params)
   \<and> 1 < num_states (ddp junk0 example_params)
   \<and> reward (ddp junk0 example_params) 1 0 = Some 0"
  using C9_hold_reward_zero[of junk0 example_params "ddp junk0 example_params" 1]
  by (simp add: example_build example_n)

text \<open>
  Claim C4. For every price state \<open>s\<close> (the states \<open>0..n-2\<close>) of a built program, the
  exercise action moves to the absorbing state \<open>n - 1\<close> with probability 1, its row being
  zero everywhere else, and its reward is the strike price minus the lattice price of \<open>s\<close>.
\<close>

theorem C4_exercise:
  assumes "build_option_mdp junk p = Inr d" and "s < num_states d - 1"
  shows "transition d s 1 = Some ((replicate (num_states d) 0)[num_states d - 1 := 1])
       \<and> reward d s 1 = Some (strike_price p - ps p ! s)"
proof -
  from assms(1) have d: "d = ddp junk p" by (simp add: build_Inr)
  from assms(2) have "s < length (ps p)" by (simp add: d ddp_sel n_def)
  thus ?thesis unfolding d by (simp add: reward_ddp transition_ddp ddp_sel)
qed

theorem C4_witness:
  "build_option_mdp junk0 example_params = Inr (ddp junk0 example_params)
   \<and> 2 < num_states (ddp junk0 example_params) - 1
   \<and> transition (ddp junk0 example_params) 2 1 = Some [0, 0, 0, 1]
   \<and> reward (ddp junk0 example_params) 2 1 = Some (2 - ps example_params ! 2)"
proof -
  have "strike_price example_params = 2" by (simp add: example_params_def)
  moreover have "(replicate 4 (0::real))[3 := 1] = [0, 0, 0, 1]" by (simp add: numeral_Bit0 numeral_3_eq_3)
  ultimately show ?thesis
  using C4_exercise[of junk0 example_params "ddp junk0 example_params" 2]
  by (simp add: example_build example_n)
qed

text \<open>
  Claim C5. The absorbing state \<open>n - 1\<close> of a built program has exactly one feasible
  action; that action returns to the absorbing state with probability 1 and has reward 0.
  The list of state-action pairs, and with it each of the four arrays, has \<open>2n - 1\<close>
  entries.
\<close>

theorem C5_absorbing:
  assumes "build_option_mdp junk p = Inr d"
  shows "feasible d (num_states d - 1) = [0]
       \<and> transition d (num_states d - 1) 0 = Some ((replicate (num_states d) 0)[num_states d - 1 := 1])
       \<and> reward d (num_states d - 1) 0 = Some 0
       \<and> length (ddp_s_indices d) = 2 * num_states d - 1
       \<and> length (ddp_a_indices d) = 2 * num_states d - 1
       \<and> length (ddp_R d) = 2 * num_states d - 1
       \<and> length (ddp_Q d) = 2 * num_states d - 1"
proof -
  from assms(1) have d: "d = ddp junk p" by (simp add: build_Inr)
  show ?thesis unfolding d
    by (simp add: feasible_ddp reward_ddp transition_ddp ddp_sel n_def
        length_s_indices length_a_indices length_R length_Q L_eq)
qed

theorem C5_witness:
  "build_option_mdp junk0 example_params = Inr (ddp junk0 example_params)
   \<and> feasible (ddp junk0 example_params) 3 = [0]
   \<and> transition (ddp junk0 example_params) 3 0 = Some [0, 0, 0, 1]
   \<and> reward (ddp junk0 example_params) 3 0 = Some 0
   \<and> length (ddp_s_indices (ddp junk0 example_params)) = 7"
proof -
  have "(replicate 4 (0::real))[3 := 1] = [0, 0, 0, 1]" by (simp add: eval_nat_numeral)
  thus ?thesis
    using C5_absorbing[OF example_build]
    by (simp add: example_build example_n)
qed

section \<open>Transition rows as probability distributions\<close>

lemma sum_list_update_real:
  fixes xs :: "real list"
  shows "i < length xs \<Longrightarrow> sum_list (xs[i := x]) = sum_list xs - xs ! i + x"
proof (induction xs arbitrary: i)
  case Nil thus ?case by simp
next
  case (Cons y ys) thus ?case by (cases i) simp_all
qed

lemma sum_list_zero_update1:
  fixes x :: real
  assumes "a < k"
  shows "sum_list ((replicate k 0)[a := x]) = x"
  using assms by (simp add: sum_list_update_real sum_list_replicate)

lemma sum_list_zero_update2:
  fixes x y :: real
  assumes "a \<noteq> b" "a < k" "b < k"
  shows "sum_list ((replicate k 0)[a := x, b := y]) = x + y"
proof -
  have "sum_list ((replicate k 0)[a := x, b := y])
      = sum_list ((replicate k 0)[a := x]) - (replicate k 0)[a := x] ! b + y"
    using assms by (intro sum_list_update_real) simp
  also have "(replicate k (0::real))[a := x] ! b = 0" using assms by simp
  finally show ?thesis using assms by (simp add: sum_list_zero_update1)
qed

text \<open>The two cells a hold row assigns are distinct and lie among the price states.\<close>

lemma hold_indices:
  assumes "num_periods p \<noteq> 0" "s < length (ps p)"
  shows "min (s + 1) (length (ps p) - 1) \<noteq> s - 1"
    and "min (s + 1) (length (ps p) - 1) < length (ps p)"
    and "s - 1 < length (ps p)"
    and "min (s + 1) (length (ps p) - 1) = (if s + 1 < length (ps p) then s + 1 else s)"
    and "s - 1 = (if 0 < s then s - 1 else s)"
  using length_ps_cases[OF assms(1)] assms(2) by auto

lemma Q_rows:
  assumes "i < L p"
  shows "(\<exists>s. s < length (ps p) \<and> i = 2 * s \<and>
            Q p ! i = (replicate (n p) 0)[min (s + 1) (length (ps p) - 1) := q p, s - 1 := 1 - q p])
       \<or> Q p ! i = (replicate (n p) 0)[n p - 1 := 1]"
proof -
  have "i = 2 * (i div 2) \<and> i div 2 < length (ps p) \<or> i = Suc (2 * (i div 2)) \<and> i div 2 < length (ps p)
    \<or> i = 2 * length (ps p)"
    using assms unfolding L_eq by presburger
  then consider s where "i = 2 * s" "s < length (ps p)" | s where "i = Suc (2 * s)" "s < length (ps p)"
    | "i = 2 * length (ps p)"
    by blast
  thus ?thesis
  proof cases
    case 1 thus ?thesis using Q_nth_hold[of s p] by blast
  next
    case 2 thus ?thesis using Q_nth_exercise[of s p] by simp
  next
    case 3 thus ?thesis using Q_nth_last[of p] by simp
  qed
qed

lemma Q_row_sum:
  assumes "num_periods p \<noteq> 0" "i < L p"
  shows "sum_list (Q p ! i) = 1"
  using Q_rows[OF assms(2)]
proof (elim disjE exE conjE)
  fix s assume s: "s < length (ps p)"
    and r: "Q p ! i = (replicate (n p) 0)[min (s + 1) (length (ps p) - 1) := q p, s - 1 := 1 - q p]"
  from hold_indices(1-3)[OF assms(1) s] show ?thesis
    unfolding r by (subst sum_list_zero_update2) (simp_all add: n_def)
next
  assume r: "Q p ! i = (replicate (n p) 0)[n p - 1 := 1]"
  show ?thesis unfolding r by (rule sum_list_zero_update1) (simp add: n_def)
qed

lemma Q_row_nonneg:
  assumes "0 \<le> q p" "q p \<le> 1" "i < L p" "x \<in> set (Q p ! i)"
  shows "0 \<le> x"
proof -
  have a: "\<And>a b y z. set ((replicate (n p) (0::real))[a := y, b := z]) \<subseteq> {0, y, z}"
  proof -
    fix a b and y z :: real
    have "set ((replicate (n p) (0::real))[a := y, b := z]) \<subseteq> insert z (set ((replicate (n p) (0::real))[a := y]))"
      by (rule set_update_subset_insert)
    also have "set ((replicate (n p) (0::real))[a := y]) \<subseteq> insert y (set (replicate (n p) 0))"
      by (rule set_update_subset_insert)
    finally have "set ((replicate (n p) (0::real))[a := y, b := z]) \<subseteq> insert z (insert y (set (replicate (n p) 0)))"
      by blast
    thus "set ((replicate (n p) (0::real))[a := y, b := z]) \<subseteq> {0, y, z}" by auto
  qed
  have b: "\<And>a y. set ((replicate (n p) (0::real))[a := y]) \<subseteq> {0, y}"
  proof -
    fix a and y :: real
    have "set ((replicate (n p) (0::real))[a := y]) \<subseteq> insert y (set (replicate (n p) 0))"
      by (rule set_update_subset_insert)
    thus "set ((replicate (n p) (0::real))[a := y]) \<subseteq> {0, y}" by auto
  qed
  from Q_rows[OF assms(3)] show ?thesis
  proof (elim disjE exE conjE)
    fix s assume "Q p ! i = (replicate (n p) 0)[min (s + 1) (length (ps p) - 1) := q p, s - 1 := 1 - q p]"
    with assms(4) a[of "min (s + 1) (length (ps p) - 1)" "q p" "s - 1" "1 - q p"]
    have "x \<in> {0, q p, 1 - q p}" by auto
    with assms(1,2) show ?thesis by auto
  next
    assume "Q p ! i = (replicate (n p) 0)[n p - 1 := 1]"
    with assms(4) b[of "n p - 1" 1] have "x \<in> {0, 1}" by auto
    thus ?thesis by auto
  qed
qed

lemma positive_inputs_build:
  assumes "0 < expiration_years p" "0 < annual_rate p" "1 \<le> num_periods p"
  shows "build_option_mdp junk p = Inr (ddp junk p)"
proof (rule build_ok)
  from assms(3) show "num_periods p \<noteq> 0" by simp
  from assms have "0 \<le> annual_rate p * tau p" by (simp add: tau_def)
  thus "beta p \<le> 1" by (simp add: beta_le_one_iff)
qed

text \<open>
  Claim C2, as amended. For positive inputs and at least one period the build succeeds,
  and if the up-jump probability it computes satisfies \<open>0 \<le> q \<le> 1\<close>, then for every
  state-action pair the outgoing probabilities are non-negative and their sum is 1 within
  the tolerance \<open>10\<^sup>-\<^sup>8\<close>. Positive inputs alone do not ensure \<open>0 \<le> q\<close>:
  \<open>C2_counterexample\<close> below has positive inputs, one period, and the entry \<open>q = -3/8\<close>
  in the hold row of the lowest price state.
\<close>

theorem C2_rows_are_distributions:
  assumes "0 < expiration_years p" "0 < volatility p" "0 < annual_rate p"
    and "0 < strike_price p" "0 < initial_price p" "1 \<le> num_periods p"
    and "0 \<le> q p" "q p \<le> 1"
  shows "\<exists>d. build_option_mdp junk p = Inr d
           \<and> length (ddp_Q d) = length (ddp_s_indices d)
           \<and> (\<forall>i < length (ddp_Q d).
                  (\<forall>x \<in> set (ddp_Q d ! i). 0 \<le> x)
                \<and> \<bar>sum_list (ddp_Q d ! i) - 1\<bar> \<le> tolerance)"
proof -
  have b: "build_option_mdp junk p = Inr (ddp junk p)"
    using assms(1,3,6) by (rule positive_inputs_build)
  from assms(6) have N: "num_periods p \<noteq> 0" by simp
  have "(\<forall>x \<in> set (Q p ! i). 0 \<le> x) \<and> \<bar>sum_list (Q p ! i) - 1\<bar> \<le> tolerance"
    if "i < L p" for i
    using Q_row_sum[OF N that] Q_row_nonneg[OF assms(7,8) that] by (simp add: tolerance_def)
  thus ?thesis using b by (simp add: ddp_sel length_Q length_s_indices)
qed

lemma example_q: "q example_params = 1 / 2"
  by (simp add: q_def tau_def example_params_def)

lemma neg_q: "q neg_q_params = - 3 / 8"
  by (simp add: q_def tau_def neg_q_params_def)

theorem C2_witness:
  "0 < expiration_years example_params \<and> 0 < volatility example_params
   \<and> 0 < annual_rate example_params \<and> 0 < strike_price example_params
   \<and> 0 < initial_price example_params \<and> 1 \<le> num_periods example_params
   \<and> 0 \<le> q example_params \<and> q example_params \<le> 1
   \<and> build_option_mdp junk0 example_params = Inr (ddp junk0 example_params)
   \<and> 2 < length (ddp_Q (ddp junk0 example_params))
   \<and> 0 \<le> ddp_Q (ddp junk0 example_params) ! 2 ! 0
   \<and> \<bar>sum_list (ddp_Q (ddp junk0 example_params) ! 2) - 1\<bar> \<le> tolerance"
proof -
  have h: "0 < expiration_years example_params" "0 < volatility example_params"
    "0 < annual_rate example_params" "0 < strike_price example_params"
    "0 < initial_price example_params" "1 \<le> num_periods example_params"
    by (simp_all add: example_params_def)
  have q: "0 \<le> q example_params" "q example_params \<le> 1" by (simp_all add: example_q)
  have l: "2 < length (ddp_Q (ddp junk0 example_params))"
    by (simp add: ddp_sel length_Q L_eq example_length_ps)
  have "length (Q example_params ! 2) = n example_params"
    by (rule length_Q_nth) (simp add: L_eq example_length_ps)
  hence m: "ddp_Q (ddp junk0 example_params) ! 2 ! 0 \<in> set (ddp_Q (ddp junk0 example_params) ! 2)"
    by (simp add: ddp_sel n_def)
  from C2_rows_are_distributions[OF h q, of junk0] obtain d where
    d: "build_option_mdp junk0 example_params = Inr d"
    and r: "\<forall>i < length (ddp_Q d).
                  (\<forall>x \<in> set (ddp_Q d ! i). 0 \<le> x)
                \<and> \<bar>sum_list (ddp_Q d ! i) - 1\<bar> \<le> tolerance" by blast
  from d example_build have "d = ddp junk0 example_params" by simp
  with r l m have "0 \<le> ddp_Q (ddp junk0 example_params) ! 2 ! 0
     \<and> \<bar>sum_list (ddp_Q (ddp junk0 example_params) ! 2) - 1\<bar> \<le> tolerance" by blast
  with h q l example_build show ?thesis by blast
qed

theorem C2_counterexample:
  "0 < expiration_years neg_q_params \<and> 0 < volatility neg_q_params
   \<and> 0 < annual_rate neg_q_params \<and> 0 < strike_price neg_q_params
   \<and> 0 < initial_price neg_q_params \<and> 1 \<le> num_periods neg_q_params
   \<and> build_option_mdp junk0 neg_q_params = Inr (ddp junk0 neg_q_params)
   \<and> transition (ddp junk0 neg_q_params) 0 0 = Some [11 / 8, - 3 / 8, 0, 0]
   \<and> ddp_Q (ddp junk0 neg_q_params) ! 0 ! 1 < 0"
proof -
  have len: "length (ps neg_q_params) = 3" by (simp add: length_ps neg_q_params_def)
  have "replicate 4 (0::real) = [0, 0, 0, 0]" by (simp add: eval_nat_numeral)
  hence "(replicate 4 (0::real))[1 := - 3 / 8, 0 := 11 / 8] = [11 / 8, - 3 / 8, 0, 0]"
    by simp
  hence row: "Q neg_q_params ! 0 = [11 / 8, - 3 / 8, 0, 0]"
    using Q_nth_hold[of 0 neg_q_params] by (simp add: len n_def neg_q)
  have tr: "transition (ddp junk0 neg_q_params) 0 0 = Some (Q neg_q_params ! 0)"
    using Q_nth_hold[of 0 neg_q_params] by (simp add: transition_ddp len)
  have p: "0 < expiration_years neg_q_params \<and> 0 < volatility neg_q_params
   \<and> 0 < annual_rate neg_q_params \<and> 0 < strike_price neg_q_params
   \<and> 0 < initial_price neg_q_params \<and> 1 \<le> num_periods neg_q_params"
    by (simp add: neg_q_params_def)
  have b: "build_option_mdp junk0 neg_q_params = Inr (ddp junk0 neg_q_params)"
    by (rule positive_inputs_build) (simp_all add: neg_q_params_def)
  have "ddp_Q (ddp junk0 neg_q_params) ! 0 ! 1 < 0" by (simp add: ddp_sel row)
  with p b tr row show ?thesis by simp
qed

section \<open>Hold rows, derived quantities and the failure of the build\<close>

text \<open>
  Claim C3. For every price state \<open>s\<close>, the hold row has \<open>q\<close> at the price state one
  step up and \<open>1 - q\<close> at the price state one step down, and zero everywhere else, in
  particular at the absorbing state. At the ends of the lattice the missing neighbour is
  replaced by \<open>s\<close> itself: the lowest state keeps \<open>1 - q\<close> on itself, the highest keeps
  \<open>q\<close> on itself. The two cells are always distinct and both are price states, so no
  mass lies outside the lattice.
\<close>

theorem C3_hold_row:
  assumes "build_option_mdp junk p = Inr d" and "s < num_states d - 1"
  shows "\<exists>row. transition d s 0 = Some row \<and> length row = num_states d
           \<and> (let up = (if s + 1 < num_states d - 1 then s + 1 else s);
                   down = (if 0 < s then s - 1 else s)
               in up \<noteq> down \<and> up < num_states d - 1 \<and> down < num_states d - 1
                  \<and> row ! up = q p \<and> row ! down = 1 - q p
                  \<and> (\<forall>j < num_states d. j \<noteq> up \<and> j \<noteq> down \<longrightarrow> row ! j = 0)
                  \<and> row ! (num_states d - 1) = 0)"
proof -
  from assms(1) have d: "d = ddp junk p" and N: "num_periods p \<noteq> 0" by (simp_all add: build_Inr)
  from assms(2) have s: "s < length (ps p)" by (simp add: d ddp_sel n_def)
  let ?up = "min (s + 1) (length (ps p) - 1)"
  let ?row = "(replicate (n p) 0)[?up := q p, s - 1 := 1 - q p]"
  note h = hold_indices[OF N s]
  have t: "transition d s 0 = Some ?row" using s by (simp add: d transition_ddp)
  have up: "?up = (if s + 1 < num_states d - 1 then s + 1 else s)"
    using h(4) by (simp add: d ddp_sel n_def)
  have down: "s - 1 = (if 0 < s then s - 1 else s)" by simp
  have lt: "?up < n p" "s - 1 < n p" "n p - 1 < n p" "?up \<noteq> n p - 1" "s - 1 \<noteq> n p - 1"
    using h(2,3) by (simp_all add: n_def)
  have nd: "num_states d = n p" by (simp add: d ddp_sel)
  have 1: "length ?row = num_states d" by (simp add: nd)
  have 2: "?row ! ?up = q p" using h(1) lt by (simp add: nth_list_update)
  have 3: "?row ! (s - 1) = 1 - q p" using lt by simp
  have 4: "\<forall>j < num_states d. j \<noteq> ?up \<and> j \<noteq> s - 1 \<longrightarrow> ?row ! j = 0"
    by (simp add: nd nth_list_update)
  have 5: "?row ! (num_states d - 1) = 0"
    using lt by (simp add: nd nth_list_update)
  have 6: "?up < num_states d - 1" "s - 1 < num_states d - 1"
    using h(2,3) by (simp_all add: nd n_def)
  have "let up = ?up; down = s - 1
        in up \<noteq> down \<and> up < num_states d - 1 \<and> down < num_states d - 1
                  \<and> ?row ! up = q p \<and> ?row ! down = 1 - q p
                  \<and> (\<forall>j < num_states d. j \<noteq> up \<and> j \<noteq> down \<longrightarrow> ?row ! j = 0)
                  \<and> ?row ! (num_states d - 1) = 0"
    unfolding Let_def using h(1) 2 3 4 5 6 by blast
  hence "let up = (if s + 1 < num_states d - 1 then s + 1 else s);
             down = (if 0 < s then s - 1 else s)
        in up \<noteq> down \<and> up < num_states d - 1 \<and> down < num_states d - 1
                  \<and> ?row ! up = q p \<and> ?row ! down = 1 - q p
                  \<and> (\<forall>j < num_states d. j \<noteq> up \<and> j \<noteq> down \<longrightarrow> ?row ! j = 0)
                  \<and> ?row ! (num_states d - 1) = 0"
    by (simp only: up[symmetric] down[symmetric])
  with t 1 show ?thesis by blast
qed

theorem C3_witness:
  "build_option_mdp junk0 example_params = Inr (ddp junk0 example_params)
   \<and> 0 < num_states (ddp junk0 example_params) - 1
   \<and> 2 < num_states (ddp junk0 example_params) - 1
   \<and> transition (ddp junk0 example_params) 0 0 = Some [1 / 2, 1 / 2, 0, 0]
   \<and> transition (ddp junk0 example_params) 2 0 = Some [0, 1 / 2, 1 / 2, 0]"
proof -
  have l: "0 < num_states (ddp junk0 example_params) - 1" "2 < num_states (ddp junk0 example_params) - 1"
    by (simp_all add: example_n)
  have r: "replicate 4 (0::real) = [0, 0, 0, 0]" by (simp add: eval_nat_numeral)
  from C3_hold_row[OF example_build l(1)] obtain row0 where
    row0: "transition (ddp junk0 example_params) 0 0 = Some row0" by blast
  from C3_hold_row[OF example_build l(2)] obtain row2 where
    row2: "transition (ddp junk0 example_params) 2 0 = Some row2" by blast
  have "row0 = [1 / 2, 1 / 2, 0, 0]"
    using row0 by (simp add: transition_ddp example_length_ps n_def example_q r)
  moreover have "row2 = [0, 1 / 2, 1 / 2, 0]"
    using row2 by (simp add: transition_ddp example_length_ps n_def example_q r)
  ultimately show ?thesis using row0 row2 l example_build by simp
qed


lemma ps_nth:
  assumes "k < length (ps p)"
  shows "ps p ! k = u p powi (int k - num_periods p) * initial_price p"
proof -
  from assms have k: "k < length [- num_periods p .. num_periods p]" by (simp add: ps_def)
  hence "- num_periods p + int k \<le> num_periods p" by simp
  hence "[- num_periods p .. num_periods p] ! k = - num_periods p + int k" by (rule nth_upto)
  thus ?thesis unfolding ps_def using k by (simp add: algebra_simps)
qed

lemma u_gt_1:
  assumes "0 < expiration_years p" "0 < volatility p" "1 \<le> num_periods p"
  shows "1 < u p"
proof -
  from assms have "0 < tau p" by (simp add: tau_def)
  with assms(2) have "0 < volatility p * sqrt (tau p)" by simp
  thus ?thesis by (simp add: u_def)
qed

lemma ps_ascending:
  assumes "1 < u p" "0 < initial_price p"
  shows "sorted_wrt (<) (ps p)"
  unfolding sorted_wrt_iff_nth_less
proof (intro allI impI)
  fix i j assume ij: "i < j" "j < length (ps p)"
  hence "int i - num_periods p < int j - num_periods p" by simp
  hence "u p powi (int i - num_periods p) < u p powi (int j - num_periods p)"
    using assms(1) by (rule power_int_strict_increasing)
  with assms(2) ij show "ps p ! i < ps p ! j" by (simp add: ps_nth)
qed

text \<open>
  Claim C6. For positive expiration time, volatility and initial price and at least one
  period, the derived quantities are the stated functions of the inputs:
  \<open>\<tau> = T / N\<close>, \<open>\<beta> = exp (- r \<tau>)\<close> (which is the discount factor of the built program),
  \<open>u = exp (vol \<cdot> sqrt \<tau>)\<close>, \<open>q = 1/2 + sqrt \<tau> \<cdot> (r - vol\<^sup>2/2) / (2 vol)\<close>; the lattice has
  \<open>2N + 1\<close> prices \<open>ps[k] = u\<^bsup>k-N\<^esup> \<cdot> p0\<close>, strictly ascending because \<open>u > 1\<close>, and the
  program has \<open>n = 2N + 2\<close> states.
\<close>

theorem C6_derived_quantities:
  assumes "build_option_mdp junk p = Inr d"
    and "0 < expiration_years p" "0 < volatility p" "0 < initial_price p" "1 \<le> num_periods p"
  shows "tau p = expiration_years p / of_int (num_periods p)
       \<and> beta p = exp (- annual_rate p * tau p) \<and> ddp_beta d = beta p
       \<and> u p = exp (volatility p * sqrt (tau p))
       \<and> q p = 1 / 2 + sqrt (tau p) * (annual_rate p - (volatility p)\<^sup>2 / 2) / (2 * volatility p)
       \<and> int (length (ps p)) = 2 * num_periods p + 1
       \<and> (\<forall>k < length (ps p). ps p ! k = u p powi (int k - num_periods p) * initial_price p)
       \<and> 1 < u p \<and> sorted_wrt (<) (ps p)
       \<and> int (n p) = 2 * num_periods p + 2 \<and> num_states d = n p"
proof -
  from assms(1) have d: "d = ddp junk p" by (simp add: build_Inr)
  have u1: "1 < u p" using assms(2,3,5) by (rule u_gt_1)
  have "sorted_wrt (<) (ps p)" using u1 assms(4) by (rule ps_ascending)
  moreover have "int (length (ps p)) = 2 * num_periods p + 1" using assms(5) by (simp add: length_ps)
  moreover have "\<forall>k < length (ps p). ps p ! k = u p powi (int k - num_periods p) * initial_price p"
    by (simp add: ps_nth)
  ultimately show ?thesis using u1
    by (simp add: d ddp_sel n_def) (simp add: tau_def beta_def u_def q_def)
qed

theorem C6_witness:
  "build_option_mdp junk0 example_params = Inr (ddp junk0 example_params)
   \<and> 0 < expiration_years example_params \<and> 0 < volatility example_params
   \<and> 0 < initial_price example_params \<and> 1 \<le> num_periods example_params
   \<and> length (ps example_params) = 3 \<and> sorted_wrt (<) (ps example_params)
   \<and> 1 < u example_params \<and> n example_params = 4"
proof -
  have h: "0 < expiration_years example_params" "0 < volatility example_params"
    "0 < initial_price example_params" "1 \<le> num_periods example_params"
    by (simp_all add: example_params_def)
  from C6_derived_quantities[OF example_build h] h example_build show ?thesis
    by (simp add: example_length_ps n_def)
qed


lemma neg_strike_build:
  "build_option_mdp junk0 neg_strike_params = Inr (ddp junk0 neg_strike_params)"
  by (rule positive_inputs_build) (simp_all add: neg_strike_params_def)

lemma frame_beta:
  "beta (p\<lparr>volatility := V, strike_price := K, initial_price := x0\<rparr>) = beta p"
  by (simp add: beta_def tau_def)

text \<open>
  Claim C7, as amended. The cells check the sign of no input and there is no
  \<open>InvalidParameter\<close> error. The build fails, and produces no program, in exactly two
  cases: with Python's \<^verbatim>\<open>ZeroDivisionError\<close> from \<^verbatim>\<open>T/N\<close> when the number of periods is
  zero, and with the constructor's \<^verbatim>\<open>ValueError\<close> when the discount factor
  \<open>\<beta> = exp (- r \<cdot> T / N)\<close> it is handed exceeds 1. Whether it fails does not depend on the
  volatility, the strike price or the initial price: \<open>C7_counterexample\<close> below builds a
  program from a negative strike price.
\<close>

theorem C7_build_failures:
  "(build_option_mdp junk p = Inl ZeroDivisionError \<longleftrightarrow> num_periods p = 0)
   \<and> (build_option_mdp junk p = Inl ValueError \<longleftrightarrow> num_periods p \<noteq> 0 \<and> 1 < beta p)
   \<and> ((\<exists>d. build_option_mdp junk p = Inr d) \<longleftrightarrow> num_periods p \<noteq> 0 \<and> beta p \<le> 1)
   \<and> (isl (build_option_mdp junk (p\<lparr>volatility := V, strike_price := K, initial_price := x0\<rparr>))
        \<longleftrightarrow> isl (build_option_mdp junk p))"
proof -
  have 1: "build_option_mdp junk p' = Inl ZeroDivisionError \<longleftrightarrow> num_periods p' = 0" for p'
    by (simp add: build_option_mdp_def DiscreteDP_init_def)
  have 2: "build_option_mdp junk p' = Inl ValueError \<longleftrightarrow> num_periods p' \<noteq> 0 \<and> 1 < beta p'" for p'
    using beta_pos[of p'] by (auto simp: build_option_mdp_def DiscreteDP_init_def ddp_sel)
  have 3: "(\<exists>d. build_option_mdp junk p' = Inr d) \<longleftrightarrow> num_periods p' \<noteq> 0 \<and> beta p' \<le> 1" for p'
    using beta_pos[of p'] by (auto simp: build_option_mdp_def DiscreteDP_init_def ddp_sel)
  have 4: "isl (build_option_mdp junk p') \<longleftrightarrow> num_periods p' = 0 \<or> 1 < beta p'" for p'
    using beta_pos[of p'] by (auto simp: build_option_mdp_def DiscreteDP_init_def ddp_sel)
  show ?thesis unfolding 4 frame_beta using 1[of p] 2[of p] 3[of p] by simp
qed

theorem C7_witness:
  "num_periods zero_periods_params = 0
   \<and> build_option_mdp junk0 zero_periods_params = Inl ZeroDivisionError
   \<and> num_periods neg_rate_params \<noteq> 0 \<and> 1 < beta neg_rate_params
   \<and> build_option_mdp junk0 neg_rate_params = Inl ValueError
   \<and> num_periods neg_strike_params \<noteq> 0 \<and> beta neg_strike_params \<le> 1
   \<and> (\<exists>d. build_option_mdp junk0 neg_strike_params = Inr d)"
proof -
  have a: "num_periods zero_periods_params = 0" by (simp add: zero_periods_params_def)
  have b: "num_periods neg_rate_params \<noteq> 0" "1 < beta neg_rate_params"
    by (simp_all add: beta_def tau_def neg_rate_params_def)
  have c: "num_periods neg_strike_params \<noteq> 0" "beta neg_strike_params \<le> 1"
    by (simp_all add: beta_def tau_def neg_strike_params_def)
  from C7_build_failures[of junk0 zero_periods_params] a
  have 1: "build_option_mdp junk0 zero_periods_params = Inl ZeroDivisionError" by blast
  from C7_build_failures[of junk0 neg_rate_params] b
  have 2: "build_option_mdp junk0 neg_rate_params = Inl ValueError" by blast
  from C7_build_failures[of junk0 neg_strike_params] c
  have 3: "\<exists>d. build_option_mdp junk0 neg_strike_params = Inr d" by blast
  from a b c 1 2 3 show ?thesis by blast
qed

theorem C7_counterexample:
  "strike_price neg_strike_params \<le> 0
   \<and> build_option_mdp junk0 neg_strike_params = Inr (ddp junk0 neg_strike_params)"
  by (simp add: neg_strike_build) (simp add: neg_strike_params_def)

section \<open>The loop of the solver\<close>


lemma argmax_first_ge: "i \<in> set (b # is) \<Longrightarrow> f i \<le> f (argmax_first f b is)"
proof (induction "is" arbitrary: b i)
  case Nil thus ?case by simp
next
  case (Cons j js)
  let ?b = "if f b < f j then j else b"
  have b: "f b \<le> f (argmax_first f ?b js)" "f j \<le> f (argmax_first f ?b js)"
    using Cons.IH[of ?b ?b] by (auto split: if_splits)
  from Cons.prems consider "i = b" | "i = j" | "i \<in> set js" by auto
  thus ?case
  proof cases
    case 3 thus ?thesis using Cons.IH[of i ?b] by simp
  qed (use b in simp_all)
qed


lemma those_Some: "those xs = Some ys \<longleftrightarrow> xs = map Some ys"
proof (induction xs arbitrary: ys)
  case Nil show ?case by auto
next
  case (Cons x xs) show ?case
    by (cases x) (auto simp: Cons.IH split: option.splits)
qed

lemma backup_Some:
  assumes "backup d v = Some best"
  shows "length best = num_states d"
    and "s < num_states d \<Longrightarrow> s_wise_max (Q_value d v) (pairs_of d s) = Some (best ! s)"
proof -
  from assms have e: "map (\<lambda>s. s_wise_max (Q_value d v) (pairs_of d s)) [0..<num_states d] = map Some best"
    by (simp add: backup_def those_Some)
  from arg_cong[OF e, of length] show l: "length best = num_states d" by simp
  assume s: "s < num_states d"
  from arg_cong[OF e, of "\<lambda>xs. xs ! s"] s l
  show "s_wise_max (Q_value d v) (pairs_of d s) = Some (best ! s)" by simp
qed

lemma backup_total:
  assumes "\<And>s. s < num_states d \<Longrightarrow> pairs_of d s \<noteq> []"
  shows "\<exists>best. backup d v = Some best"
proof -
  let ?f = "\<lambda>s. s_wise_max (Q_value d v) (pairs_of d s)"
  have "map ?f [0..<num_states d] = map Some (map (\<lambda>s. the (?f s)) [0..<num_states d])"
  proof (rule nth_equalityI)
    fix i assume "i < length (map ?f [0..<num_states d])"
    hence i: "i < num_states d" by simp
    from assms[OF i] obtain j js where "pairs_of d i = j # js" by (cases "pairs_of d i") auto
    thus "map ?f [0..<num_states d] ! i = map Some (map (\<lambda>s. the (?f s)) [0..<num_states d]) ! i"
      using i by simp
  qed simp
  thus ?thesis unfolding backup_def those_Some by blast
qed

lemma bi_loop_Some:
  assumes "bi_loop d k v = Some (vs, sg)"
  shows "length vs = Suc k \<and> length sg = k \<and> vs ! k = v
       \<and> (\<forall>t < k. \<exists>best. backup d (vs ! Suc t) = Some best
                \<and> vs ! t = map (Q_value d (vs ! Suc t)) best
                \<and> sg ! t = map (\<lambda>i. ddp_a_indices d ! i) best)"
  using assms
proof (induction k arbitrary: v vs sg)
  case 0 thus ?case by auto
next
  case (Suc k)
  from Suc.prems obtain best vs' sg' where
    b: "backup d v = Some best"
    and r: "bi_loop d k (map (Q_value d v) best) = Some (vs', sg')"
    and vs: "vs = vs' @ [v]" and sg: "sg = sg' @ [map (\<lambda>i. ddp_a_indices d ! i) best]"
    by (auto split: option.splits)
  from Suc.IH[OF r] have
    l: "length vs' = Suc k" "length sg' = k" and last: "vs' ! k = map (Q_value d v) best"
    and IH: "\<And>t. t < k \<Longrightarrow> \<exists>best. backup d (vs' ! Suc t) = Some best
                \<and> vs' ! t = map (Q_value d (vs' ! Suc t)) best
                \<and> sg' ! t = map (\<lambda>i. ddp_a_indices d ! i) best"
    by auto
  have "\<exists>best. backup d (vs ! Suc t) = Some best
                \<and> vs ! t = map (Q_value d (vs ! Suc t)) best
                \<and> sg ! t = map (\<lambda>i. ddp_a_indices d ! i) best" if t: "t < Suc k" for t
  proof (cases "t < k")
    case True
    with l have "vs ! Suc t = vs' ! Suc t" "vs ! t = vs' ! t" "sg ! t = sg' ! t"
      by (simp_all add: vs sg nth_append)
    with IH[OF True] show ?thesis by simp
  next
    case False
    with t have tk: "t = k" by simp
    with l have "vs ! Suc t = v" "vs ! t = vs' ! k" "sg ! t = map (\<lambda>i. ddp_a_indices d ! i) best"
      by (simp_all add: vs sg nth_append)
    with b last show ?thesis by simp
  qed
  moreover have "length vs = Suc (Suc k)" "length sg = Suc k" "vs ! Suc k = v"
    using l by (simp_all add: vs sg nth_append)
  ultimately show ?case by blast
qed

lemma bi_loop_total:
  assumes "\<And>v. \<exists>best. backup d v = Some best"
  shows "\<exists>r. bi_loop d k v = Some r"
proof (induction k arbitrary: v)
  case 0 show ?case by simp
next
  case (Suc k)
  from assms obtain best where b: "backup d v = Some best" by blast
  from Suc[of "map (Q_value d v) best"] obtain r where
    "bi_loop d k (map (Q_value d v) best) = Some r" by blast
  with b show ?case by (cases r) simp
qed

subsection \<open>The solver on a built program\<close>

lemma pairs_nonempty: "s < n p \<Longrightarrow> pairs_of (ddp junk p) s \<noteq> []"
  by (simp add: pairs_of_ddp n_def)

lemma rows_ok:
  assumes "num_periods p \<noteq> 0" "0 \<le> q p" "q p \<le> 1"
  shows "list_all (row_ok tolerance) (Q p)"
  unfolding list_all_length row_ok_def
proof (intro allI impI conjI ballI)
  fix i assume "i < length (Q p)"
  hence i: "i < L p" by (simp add: length_Q)
  show "\<bar>sum_list (Q p ! i) - 1\<bar> \<le> tolerance"
    by (simp add: Q_row_sum[OF assms(1) i] tolerance_def)
  fix x assume "x \<in> set (Q p ! i)"
  thus "0 \<le> x" by (rule Q_row_nonneg[OF assms(2,3) i])
qed

lemma rows_ok_nonneg:
  assumes "list_all (row_ok tolerance) (Q p)" "i < L p" "j < n p"
  shows "0 \<le> Q p ! i ! j"
proof -
  from assms(1,2) have "row_ok tolerance (Q p ! i)" by (simp add: list_all_length length_Q)
  moreover from assms(2,3) have "Q p ! i ! j \<in> set (Q p ! i)" by (simp add: length_Q_nth)
  ultimately show ?thesis by (simp add: row_ok_def)
qed

lemma solver_Inr:
  assumes "backward_induction d horizon terminal = Inr (vs, sg)"
  shows "1 \<le> horizon" and "list_all (row_ok tolerance) (ddp_Q d)"
    and "bi_loop d (nat horizon)
           (case terminal of None \<Rightarrow> replicate (num_states d) 0 | Some v \<Rightarrow> v) = Some (vs, sg)"
  using assms by (auto simp: backward_induction_def split: if_splits option.splits)

lemma solver_returns:
  assumes "build_option_mdp junk p = Inr d" "1 \<le> horizon" "0 \<le> q p" "q p \<le> 1"
  shows "\<exists>vs sg. backward_induction d horizon terminal = Inr (vs, sg)"
proof -
  from assms(1) have d: "d = ddp junk p" and N: "num_periods p \<noteq> 0" by (simp_all add: build_Inr)
  have "\<exists>best. backup d v = Some best" for v
    unfolding d by (rule backup_total) (simp add: pairs_nonempty ddp_sel)
  hence "\<exists>r. bi_loop d (nat horizon)
           (case terminal of None \<Rightarrow> replicate (num_states d) 0 | Some v \<Rightarrow> v) = Some r"
    by (rule bi_loop_total)
  then obtain vs sg where "bi_loop d (nat horizon)
           (case terminal of None \<Rightarrow> replicate (num_states d) 0 | Some v \<Rightarrow> v) = Some (vs, sg)"
    by (metis surj_pair)
  moreover have "list_all (row_ok tolerance) (ddp_Q d)"
    unfolding d ddp_sel by (rule rows_ok[OF N assms(3,4)])
  ultimately show ?thesis using assms(2) by (simp add: backward_induction_def)
qed

lemma Q_sa_ddp:
  "Q_sa (ddp junk p) v s a =
     (if s < length (ps p) \<and> a < 2 \<or> s = length (ps p) \<and> a = 0
      then Some (Q_value (ddp junk p) v (2 * s + a)) else None)"
proof -
  have "(\<Sum>s' < k. f s') = (\<Sum>s' \<leftarrow> [0..<k]. f s')" for k and f :: "nat \<Rightarrow> real"
    by (simp add: interv_sum_list_conv_sum_set_nat atLeast_upt)
  thus ?thesis
    by (simp add: Q_sa_def reward_def transition_def pair_index_ddp Q_value_def)
qed

lemma greedy_state:
  assumes "s < n p" and "s_wise_max (Q_value (ddp junk p) v) (pairs_of (ddp junk p) s) = Some r"
  shows "a_indices p ! r \<in> set (feasible (ddp junk p) s)
       \<and> Q_sa (ddp junk p) v s (a_indices p ! r) = Some (Q_value (ddp junk p) v r)
       \<and> (\<forall>a \<in> set (feasible (ddp junk p) s). \<exists>x. Q_sa (ddp junk p) v s a = Some x
              \<and> x \<le> Q_value (ddp junk p) v r
              \<and> (x = Q_value (ddp junk p) v r \<longrightarrow> a_indices p ! r \<le> a))
       \<and> Q_value (ddp junk p) v r
           = Max ((\<lambda>a. the (Q_sa (ddp junk p) v s a)) ` set (feasible (ddp junk p) s))"
proof (cases "s < length (ps p)")
  case True
  let ?f = "Q_value (ddp junk p) v"
  from True have lt: "2 * s < L p" "Suc (2 * s) < L p" by (simp_all add: L_eq)
  hence a: "a_indices p ! (2 * s) = 0" "a_indices p ! Suc (2 * s) = Suc 0"
    by (simp_all add: a_indices_nth)
  from assms(2) True have r: "r = (if ?f (2 * s) < ?f (Suc (2 * s)) then Suc (2 * s) else 2 * s)"
    by (simp add: pairs_of_ddp)
  have f: "feasible (ddp junk p) s = [0, Suc 0]" using True by (simp add: feasible_ddp)
  have q0: "Q_sa (ddp junk p) v s 0 = Some (?f (2 * s))"
    and q1: "Q_sa (ddp junk p) v s (Suc 0) = Some (?f (Suc (2 * s)))"
    using True by (simp_all add: Q_sa_ddp)
  show ?thesis
  proof (cases "?f (2 * s) < ?f (Suc (2 * s))")
    case True
    hence r': "r = Suc (2 * s)" by (simp add: r)
    from True show ?thesis unfolding r' f by (simp add: a q0 q1 max_def)
  next
    case False
    hence r': "r = 2 * s" by (simp add: r)
    from False show ?thesis unfolding r' f by (simp add: a q0 q1 max_def)
  qed
next
  case False
  with assms(1) have s: "s = length (ps p)" by (simp add: n_def)
  from assms(2) have r: "r = 2 * length (ps p)" by (simp add: pairs_of_ddp s)
  have "a_indices p ! (2 * length (ps p)) = 0" by (simp add: a_indices_nth L_eq)
  thus ?thesis unfolding r s by (simp add: feasible_ddp Q_sa_ddp)
qed

section \<open>Optimality of the backup\<close>

text \<open>
  Claim C1. For every built program and every horizon of at least one period, whenever
  the solver returns, the value of period \<open>t\<close> at state \<open>s\<close> is the maximum over the
  feasible actions \<open>a\<close> of \<open>s\<close> of
  \<open>Q(s,a) = reward(s,a) + \<beta> \<cdot> \<Sum>\<^sub>s\<^sub>' P(s,a,s') \<cdot> V\<^bsub>t+1\<^esub>(s')\<close>, and the policy of period \<open>t\<close>
  is a feasible action that attains it, the lowest among those that do: no feasible
  action has a larger \<open>Q\<close>. The solver returns whenever \<open>0 \<le> q \<le> 1\<close>; it rejects a
  program whose rows are not probability distributions.
\<close>

theorem C1_backup_is_greedy_max:
  assumes "build_option_mdp junk p = Inr d" and "1 \<le> horizon"
  shows "(0 \<le> q p \<and> q p \<le> 1 \<longrightarrow>
            (\<exists>vs sigmas. backward_induction d horizon terminal = Inr (vs, sigmas)))
       \<and> (\<forall>vs sigmas. backward_induction d horizon terminal = Inr (vs, sigmas) \<longrightarrow>
            length vs = nat horizon + 1 \<and> length sigmas = nat horizon \<and>
            (\<forall>t < nat horizon. \<forall>s < num_states d.
               sigmas ! t ! s \<in> set (feasible d s)
             \<and> Q_sa d (vs ! Suc t) s (sigmas ! t ! s) = Some (vs ! t ! s)
             \<and> (\<forall>a \<in> set (feasible d s). \<exists>x. Q_sa d (vs ! Suc t) s a = Some x
                    \<and> x \<le> vs ! t ! s \<and> (x = vs ! t ! s \<longrightarrow> sigmas ! t ! s \<le> a))
             \<and> vs ! t ! s = Max ((\<lambda>a. the (Q_sa d (vs ! Suc t) s a)) ` set (feasible d s))))"
proof (intro conjI impI allI ballI)
  assume "0 \<le> q p \<and> q p \<le> 1"
  thus "\<exists>vs sigmas. backward_induction d horizon terminal = Inr (vs, sigmas)"
    using solver_returns[OF assms] by blast
next
  fix vs sigmas assume r: "backward_induction d horizon terminal = Inr (vs, sigmas)"
  note loop = bi_loop_Some[OF solver_Inr(3)[OF r]]
  from loop show "length vs = nat horizon + 1" by simp
  from loop show "length sigmas = nat horizon" by simp
  fix t s assume t: "t < nat horizon" and s: "s < num_states d"
  from assms(1) have d: "d = ddp junk p" by (simp add: build_Inr)
  from loop t obtain best where b: "backup d (vs ! Suc t) = Some best"
    and v: "vs ! t = map (Q_value d (vs ! Suc t)) best"
    and sg: "sigmas ! t = map (\<lambda>i. ddp_a_indices d ! i) best" by blast
  note bs = backup_Some[OF b]
  from bs(1) s have vts: "vs ! t ! s = Q_value d (vs ! Suc t) (best ! s)"
    and sts: "sigmas ! t ! s = a_indices p ! (best ! s)"
    by (simp_all add: v sg d ddp_sel)
  from s have s': "s < n p" by (simp add: d ddp_sel)
  note g = greedy_state[OF s' bs(2)[OF s, unfolded d], of]
  from g show "sigmas ! t ! s \<in> set (feasible d s)" unfolding vts sts d by blast
  from g show "Q_sa d (vs ! Suc t) s (sigmas ! t ! s) = Some (vs ! t ! s)" unfolding vts sts d by blast
  from g show "vs ! t ! s = Max ((\<lambda>a. the (Q_sa d (vs ! Suc t) s a)) ` set (feasible d s))"
    unfolding vts sts d by blast
  fix a assume "a \<in> set (feasible d s)"
  with g show "\<exists>x. Q_sa d (vs ! Suc t) s a = Some x
                    \<and> x \<le> vs ! t ! s \<and> (x = vs ! t ! s \<longrightarrow> sigmas ! t ! s \<le> a)"
    unfolding vts sts d by blast
qed

theorem C1_witness:
  "build_option_mdp junk0 example_params = Inr (ddp junk0 example_params) \<and> (1::int) \<le> 1
   \<and> 0 \<le> q example_params \<and> q example_params \<le> 1
   \<and> (\<exists>vs sigmas. backward_induction (ddp junk0 example_params) 1 None = Inr (vs, sigmas)
        \<and> length vs = 2 \<and> length sigmas = 1
        \<and> sigmas ! 0 ! 0 \<in> set (feasible (ddp junk0 example_params) 0)
        \<and> Q_sa (ddp junk0 example_params) (vs ! 1) 0 (sigmas ! 0 ! 0) = Some (vs ! 0 ! 0))"
proof -
  have h: "(1::int) \<le> 1" by simp
  have q: "0 \<le> q example_params \<and> q example_params \<le> 1" by (simp add: example_q)
  note c = C1_backup_is_greedy_max[OF example_build h, of None]
  from c q obtain vs sigmas where
    r: "backward_induction (ddp junk0 example_params) 1 None = Inr (vs, sigmas)" by blast
  have ts: "(0::nat) < nat 1" "0 < num_states (ddp junk0 example_params)"
    by (simp_all add: example_n)
  from c r ts have "length vs = 2 \<and> length sigmas = 1
        \<and> sigmas ! 0 ! 0 \<in> set (feasible (ddp junk0 example_params) 0)
        \<and> Q_sa (ddp junk0 example_params) (vs ! 1) 0 (sigmas ! 0 ! 0) = Some (vs ! 0 ! 0)"
    by (simp del: One_nat_def) (metis One_nat_def)
  with r q h example_build show ?thesis by blast
qed

section \<open>Sign and monotonicity of the values\<close>

lemma pairs_of_head: "s < n p \<Longrightarrow> \<exists>rest. pairs_of (ddp junk p) s = 2 * s # rest"
  by (cases "s < length (ps p)") (simp_all add: pairs_of_ddp n_def)

lemma beta_nonneg: "0 \<le> beta p"
  by (simp add: beta_def)

lemma Q_value_hold_nonneg:
  assumes "list_all (row_ok tolerance) (Q p)" "s < n p" "\<And>j. j < n p \<Longrightarrow> 0 \<le> v ! j"
  shows "0 \<le> Q_value (ddp junk p) v (2 * s)"
proof -
  from assms(2) have i: "2 * s < L p" by (simp add: L_eq n_def)
  have "0 \<le> (\<Sum>s' \<leftarrow> [0..<n p]. Q p ! (2 * s) ! s' * v ! s')"
    by (rule sum_list_nonneg) (auto intro!: mult_nonneg_nonneg rows_ok_nonneg[OF assms(1) i] assms(3))
  thus ?thesis using i by (simp add: Q_value_def ddp_sel R_nth beta_nonneg)
qed

lemma backup_nonneg:
  assumes "list_all (row_ok tolerance) (Q p)" "\<And>j. j < n p \<Longrightarrow> 0 \<le> v ! j"
    and "backup (ddp junk p) v = Some best" "s < n p"
  shows "0 \<le> map (Q_value (ddp junk p) v) best ! s"
proof -
  let ?f = "Q_value (ddp junk p) v"
  from assms(4) have s: "s < num_states (ddp junk p)" by (simp add: ddp_sel)
  note bs = backup_Some[OF assms(3)]
  from pairs_of_head[OF assms(4)] obtain rest where "pairs_of (ddp junk p) s = 2 * s # rest"
    by blast
  with bs(2)[OF s] have "best ! s = argmax_first ?f (2 * s) rest" by simp
  hence "?f (2 * s) \<le> ?f (best ! s)" by (simp add: argmax_first_ge)
  with Q_value_hold_nonneg[OF assms(1,4,2), of junk] have "0 \<le> ?f (best ! s)" by simp
  thus ?thesis using bs(1) s by simp
qed

lemma bi_loop_nonneg:
  assumes "list_all (row_ok tolerance) (Q p)"
  shows "(\<And>j. j < n p \<Longrightarrow> 0 \<le> v ! j) \<Longrightarrow> bi_loop (ddp junk p) k v = Some (vs, sg)
         \<Longrightarrow> t \<le> k \<Longrightarrow> s < n p \<Longrightarrow> 0 \<le> vs ! t ! s"
proof (induction k arbitrary: v vs sg)
  case 0 thus ?case by auto
next
  case (Suc k)
  from Suc.prems(2) obtain best vs' sg' where
    b: "backup (ddp junk p) v = Some best"
    and r: "bi_loop (ddp junk p) k (map (Q_value (ddp junk p) v) best) = Some (vs', sg')"
    and vs: "vs = vs' @ [v]"
    by (auto split: option.splits)
  from bi_loop_Some[OF r] have l: "length vs' = Suc k" by simp
  show ?case
  proof (cases "t \<le> k")
    case True
    have "0 \<le> vs' ! t ! s"
      by (rule Suc.IH[OF _ r True Suc.prems(4)]) (rule backup_nonneg[OF assms Suc.prems(1) b])
    with True l show ?thesis by (simp add: vs nth_append)
  next
    case False
    with Suc.prems(3) have "t = Suc k" by simp
    with l have "vs ! t = v" by (simp add: vs nth_append)
    with Suc.prems(1,4) show ?thesis by simp
  qed
qed

text \<open>
  Claim C10. If \<open>0 \<le> q \<le> 1\<close> and the terminal value is the default zero vector, the
  solver returns and every value it returns is non-negative, for every period from \<open>0\<close>
  to the horizon and every state: holding has reward 0 and a non-negative discounted
  continuation value.
\<close>

theorem C10_values_nonnegative:
  assumes "build_option_mdp junk p = Inr d" and "1 \<le> horizon" and "0 \<le> q p" and "q p \<le> 1"
  shows "\<exists>vs sigmas. backward_induction d horizon None = Inr (vs, sigmas)
           \<and> length vs = nat horizon + 1
           \<and> (\<forall>t \<le> nat horizon. \<forall>s < num_states d. 0 \<le> vs ! t ! s)"
proof -
  from solver_returns[OF assms] obtain vs sigmas where
    r: "backward_induction d horizon None = Inr (vs, sigmas)" by blast
  from assms(1) have d: "d = ddp junk p" by (simp add: build_Inr)
  note loop = solver_Inr(3)[OF r, unfolded d, simplified]
  have ok: "list_all (row_ok tolerance) (Q p)" using solver_Inr(2)[OF r] by (simp add: d ddp_sel)
  have "0 \<le> vs ! t ! s" if "t \<le> nat horizon" "s < num_states d" for t s
  proof (rule bi_loop_nonneg[OF ok _ loop that(1)])
    show "s < n p" using that(2) by (simp add: d ddp_sel)
    fix j assume "j < n p"
    thus "0 \<le> replicate (num_states (ddp junk p)) (0::real) ! j" by (simp add: ddp_sel)
  qed
  moreover have "length vs = nat horizon + 1" using bi_loop_Some[OF loop] by simp
  ultimately show ?thesis using r by blast
qed

theorem C10_witness:
  "build_option_mdp junk0 example_params = Inr (ddp junk0 example_params) \<and> (1::int) \<le> 1
   \<and> 0 \<le> q example_params \<and> q example_params \<le> 1
   \<and> (\<exists>vs sigmas. backward_induction (ddp junk0 example_params) 1 None = Inr (vs, sigmas)
        \<and> length vs = 2 \<and> 0 \<le> vs ! 0 ! 0 \<and> 0 \<le> vs ! 0 ! 3)"
proof -
  have h: "(1::int) \<le> 1" by simp
  have q: "0 \<le> q example_params" "q example_params \<le> 1" by (simp_all add: example_q)
  from C10_values_nonnegative[OF example_build h q] obtain vs sigmas where
    r: "backward_induction (ddp junk0 example_params) 1 None = Inr (vs, sigmas)"
    and l: "length vs = nat 1 + 1"
    and v: "\<forall>t \<le> nat 1. \<forall>s < num_states (ddp junk0 example_params). 0 \<le> vs ! t ! s"
    by blast
  from v have "0 \<le> vs ! 0 ! 0" "0 \<le> vs ! 0 ! 3" by (simp_all add: example_n)
  with r l q h example_build show ?thesis by auto
qed










end
